theory Spec2Isabelle
  imports Complex_Main "HOL-Library.Char_ord" "HOL-Library.List_Lexorder"
begin

unbundle bit_operations_syntax

section \<open>Data model\<close>

text \<open>
  A calendar date is its proleptic Gregorian ordinal, the number Python's
  \<^verbatim>\<open>date.toordinal()\<close> returns (1 is 0001-01-01). The strings \<^verbatim>\<open>"%d%m%Y"\<close> and
  \<^verbatim>\<open>"%d-%m-%Y"\<close> the source passes around are serialisations of such a date.
\<close>

type_synonym date = int

text \<open>
  One row of the cleaned daily DataFrame (the columns \<^verbatim>\<open>clean_bhavcopy\<close> leaves). The four
  price columns are numbers: TA-Lib reads them. The date is a \<^verbatim>\<open>"%d-%m-%Y"\<close> string, or
  no string at all where the file had no date (\<open>None\<close>: \<^verbatim>\<open>strptime\<close> will raise on it);
  volume, previous close and average price are whatever \<^verbatim>\<open>read_csv\<close> made of the file, a
  value \<^verbatim>\<open>float()\<close> accepts or one it raises on (\<open>None\<close>).
\<close>

record bar =
  Symbol :: string
  Date :: "date option"
  Open :: real
  High :: real
  Low :: real
  Close :: real
  Volume :: "real option"
  prev_close :: "real option"
  avg_price :: "real option"

text \<open>
  A row after \<^verbatim>\<open>apply_and_encode_patterns\<close>: the twelve 0/1 pattern columns (in the order
  they were added, each under its catalog name), \<^verbatim>\<open>pattern_value\<close> and
  \<^verbatim>\<open>matched_patterns\<close>.
\<close>

record encoded = bar +
  flags :: "(string \<times> int) list"
  pattern_value :: int
  matched_patterns :: "string list"

section \<open>CandlePatternRecognizer\<close>

text \<open>
  The TA-Lib functions the source refers to. TA-Lib itself is a third-party library: a
  detector is a parameter \<open>ta\<close> of the model. \<open>ta f opens highs lows closes i\<close> is element
  \<open>i\<close> of the integer array that TA-Lib's function \<open>f\<close> returns for the four price arrays
  (TA-Lib returns an array aligned with its input).
\<close>

datatype talib_fn =
  CDLHAMMER | CDLINVERTEDHAMMER | CDLDRAGONFLYDOJI | CDLPIERCING | CDLMARUBOZU
  | CDLSPINNINGTOP | CDLHANGINGMAN | CDLSHOOTINGSTAR | CDLGRAVESTONEDOJI | CDLDOJI
  | CDLLONGLEGGEDDOJI

type_synonym talib = "talib_fn \<Rightarrow> real list \<Rightarrow> real list \<Rightarrow> real list \<Rightarrow> real list \<Rightarrow> nat \<Rightarrow> int"

definition pattern_names :: "string list" where
  "pattern_names =
     [''Hammer'', ''InvertedHammer'', ''DragonflyDoji'', ''PiercingLine'',
      ''BullishMarubozu'', ''BullishSpinningTop'', ''HangingMan'', ''ShootingStar'',
      ''GravestoneDoji'', ''BearishSpinningTop'', ''Doji'', ''LongLeggedDoji'']"

text \<open>The dict \<^verbatim>\<open>self.patterns\<close>, as an association list in the order it is written.\<close>

definition patterns :: "(string \<times> talib_fn) list" where
  "patterns =
     [(''Hammer'', CDLHAMMER),
      (''InvertedHammer'', CDLINVERTEDHAMMER),
      (''DragonflyDoji'', CDLDRAGONFLYDOJI),
      (''PiercingLine'', CDLPIERCING),
      (''BullishMarubozu'', CDLMARUBOZU),
      (''BullishSpinningTop'', CDLSPINNINGTOP),
      (''HangingMan'', CDLHANGINGMAN),
      (''ShootingStar'', CDLSHOOTINGSTAR),
      (''GravestoneDoji'', CDLGRAVESTONEDOJI),
      (''BearishSpinningTop'', CDLSPINNINGTOP),
      (''Doji'', CDLDOJI),
      (''LongLeggedDoji'', CDLLONGLEGGEDDOJI)]"

text \<open>
  Element \<open>i\<close> of \<^verbatim>\<open>self.patterns[name](df['Open'], df['High'], df['Low'], df['Close'])\<close>,
  and \<^verbatim>\<open>(... != 0).astype(int)\<close>: the new column, one 0/1 entry per row.
\<close>

definition detector_output :: "talib \<Rightarrow> bar list \<Rightarrow> talib_fn \<Rightarrow> nat \<Rightarrow> int" where
  "detector_output ta df f i = ta f (map Open df) (map High df) (map Low df) (map Close df) i"

definition flag_column :: "talib \<Rightarrow> bar list \<Rightarrow> talib_fn \<Rightarrow> int list" where
  "flag_column ta df f =
     map (\<lambda>i. if detector_output ta df f i \<noteq> 0 then 1 else 0) [0..<length df]"

text \<open>
  The loop \<^verbatim>\<open>for name in self.pattern_names: df[name] = ...\<close>. The dict lookup raises
  KeyError on a name that is not a key: \<open>None\<close>.
\<close>

fun add_pattern_columns :: "talib \<Rightarrow> bar list \<Rightarrow> string list \<Rightarrow> (string \<times> int list) list option" where
  "add_pattern_columns ta df [] = Some []"
| "add_pattern_columns ta df (name # names) =
     (case map_of patterns name of
        None \<Rightarrow> None
      | Some f \<Rightarrow>
          (case add_pattern_columns ta df names of
             None \<Rightarrow> None
           | Some cols \<Rightarrow> Some ((name, flag_column ta df f) # cols)))"

text \<open>Row \<open>i\<close> of \<^verbatim>\<open>df[self.pattern_names]\<close>: its items, column name and value.\<close>

definition row_items :: "(string \<times> int list) list \<Rightarrow> nat \<Rightarrow> (string \<times> int) list" where
  "row_items cols i = map (\<lambda>(name, col). (name, col ! i)) cols"

text \<open>\<^verbatim>\<open>astype(str)\<close> on a 0/1 integer column.\<close>

definition str_flag :: "int \<Rightarrow> string" where
  "str_flag v = (if v = 1 then ''1'' else ''0'')"

text \<open>
  Python's \<^verbatim>\<open>int(x, 2)\<close> on a string of binary digits; any other string is a ValueError
  here (\<open>None\<close>).
\<close>

definition int_base2 :: "string \<Rightarrow> int option" where
  "int_base2 x =
     (if x = [] \<or> (\<exists>c \<in> set x. c \<noteq> CHR ''0'' \<and> c \<noteq> CHR ''1'') then None
      else Some (foldl (\<lambda>acc c. 2 * acc + (if c = CHR ''1'' then 1 else 0)) 0 x))"

text \<open>
  One row's \<^verbatim>\<open>pattern_value\<close> (the joined digits parsed in base 2) and
  \<^verbatim>\<open>matched_patterns\<close> (\<^verbatim>\<open>[pattern for pattern, val in row.items() if val == 1]\<close>).
\<close>

definition encode_row :: "bar \<Rightarrow> (string \<times> int) list \<Rightarrow> encoded option" where
  "encode_row b items =
     (case int_base2 (concat (map (\<lambda>(name, v). str_flag v) items)) of
        None \<Rightarrow> None
      | Some pv \<Rightarrow>
          Some \<lparr>Symbol = Symbol b, Date = Date b, Open = Open b, High = High b, Low = Low b,
                Close = Close b, Volume = Volume b, prev_close = prev_close b,
                avg_price = avg_price b,
                flags = items,
                pattern_value = pv,
                matched_patterns = map fst (filter (\<lambda>(name, v). v = 1) items)\<rparr>)"

text \<open>
  \<^verbatim>\<open>apply_and_encode_patterns\<close>. On a frame without rows the aggregation over the rows
  yields a frame, not a column, and the assignment of \<^verbatim>\<open>pattern_value\<close> raises ValueError
  (\<open>None\<close>), after the pattern columns are added.
\<close>

definition apply_and_encode_patterns :: "talib \<Rightarrow> bar list \<Rightarrow> encoded list option" where
  "apply_and_encode_patterns ta df =
     (case add_pattern_columns ta df pattern_names of
        None \<Rightarrow> None
      | Some cols \<Rightarrow>
          if df = [] then None
          else those (map (\<lambda>i. encode_row (df ! i) (row_items cols i)) [0..<length df]))"

section \<open>PatternEngine\<close>

text \<open>
  The catalog of \<^verbatim>\<open>stock_api/pattern_engine.py\<close>: pattern id, name and detector. The two
  Marubozu detectors are lambdas: NumPy's \<^verbatim>\<open>&\<close> of TA-Lib's integer array with the boolean
  array \<^verbatim>\<open>c > o\<close> (resp. \<^verbatim>\<open>c < o\<close>) is the bitwise AND of each integer with 1 or 0.
\<close>

type_synonym detector = "real list \<Rightarrow> real list \<Rightarrow> real list \<Rightarrow> real list \<Rightarrow> nat \<Rightarrow> int"

definition bullish_marubozu :: "talib \<Rightarrow> detector" where
  "bullish_marubozu ta opens h l c i = ta CDLMARUBOZU opens h l c i AND of_bool (c ! i > opens ! i)"

definition bearish_marubozu :: "talib \<Rightarrow> detector" where
  "bearish_marubozu ta opens h l c i = ta CDLMARUBOZU opens h l c i AND of_bool (c ! i < opens ! i)"

definition engine_patterns :: "talib \<Rightarrow> (nat \<times> string \<times> detector) list" where
  "engine_patterns ta =
     [(1, ''Hammer'', ta CDLHAMMER),
      (2, ''Inverted Hammer'', ta CDLINVERTEDHAMMER),
      (3, ''Hanging Man'', ta CDLHANGINGMAN),
      (4, ''Shooting Star'', ta CDLSHOOTINGSTAR),
      (5, ''Doji'', ta CDLDOJI),
      (6, ''Bullish Marubozu'', bullish_marubozu ta),
      (7, ''Bearish Marubozu'', bearish_marubozu ta)]"

record ohlc_data =
  ohlc_open :: "real list"
  ohlc_high :: "real list"
  ohlc_low :: "real list"
  ohlc_close :: "real list"

definition detect_patterns :: "talib \<Rightarrow> ohlc_data \<Rightarrow> (nat \<times> (nat \<Rightarrow> int)) list" where
  "detect_patterns ta d =
     map (\<lambda>(pattern_id, name, func).
            (pattern_id, func (ohlc_open d) (ohlc_high d) (ohlc_low d) (ohlc_close d)))
         (engine_patterns ta)"

section \<open>StockDatabaseManager\<close>

subsection \<open>The database and the manager's state\<close>

text \<open>
  A stored row: the columns of \<^verbatim>\<open>create_table\<close> but the generated \<^verbatim>\<open>id\<close>. A table is the
  list of its rows in insertion order; the database maps a table name to its table.
\<close>

record row =
  c_symbol :: string
  c_date :: date
  c_open :: real
  c_high :: real
  c_low :: real
  c_close :: real
  c_volume :: real
  c_prev_close :: real
  c_avg_price :: real
  c_pattern_value :: int
  c_matched_patterns :: string

type_synonym table = "row list"

text \<open>
  What the program sends out, in the order it sends it: the HTTP request of
  \<^verbatim>\<open>download_csv\<close>, \<^verbatim>\<open>inspector.has_table\<close>, \<^verbatim>\<open>metadata.create_all\<close> (with the
  tables it has to create), the index statements of \<^verbatim>\<open>create_indexes\<close>, the reflection
  of a table (\<^verbatim>\<open>autoload_with\<close>) and an \<^verbatim>\<open>INSERT ... ON CONFLICT DO NOTHING\<close> with its
  records.
\<close>

datatype event =
  HttpGet date
  | HasTable string
  | CreateAll "string list"
  | CreateIndexes string
  | Reflect string
  | InsertInto string "row list"

text \<open>The messages written with \<^verbatim>\<open>logging\<close>, each with the name or date it is formatted with.\<close>

datatype log_entry =
  ErrorIndexes string
  | ErrorCreateTable string
  | ErrorInsert string
  | ErrorBulkInsert string
  | InfoBulkInserted nat string
  | ErrorProcessing date

datatype exn = DatabaseError | PandasError | TalibError | EncodeError | ConversionError

datatype 'a outcome = Return 'a | Raise exn

datatype http_result = RequestRaises | Response nat "string option"

text \<open>
  The collaborators that are not code of this repository, as parameters: whether the
  database raises on a call (connection lost, privilege missing, a conflicting schema,
  a rejected value), what the HTTP request for a day returns (an exception, or a status
  code and the body, \<open>None\<close> when it does not decode as UTF-8), what \<^verbatim>\<open>pd.read_csv\<close>
  followed by \<^verbatim>\<open>clean_bhavcopy\<close> makes of a body (\<open>None\<close> when either raises), whether
  TA-Lib rejects the price arrays, and TA-Lib's detectors.
\<close>

record env =
  db_raises :: "event \<Rightarrow> bool"
  http_get :: "date \<Rightarrow> http_result"
  read_clean :: "string \<Rightarrow> bar list option"
  talib_raises :: "bar list \<Rightarrow> bool"
  talib :: talib

text \<open>
  The state the program acts on: the database's tables, the manager's
  \<^verbatim>\<open>existing_tables_cache\<close>, the answers its \<^verbatim>\<open>Inspector\<close> has given to \<^verbatim>\<open>has_table\<close> and
  keeps, the tables registered on its \<^verbatim>\<open>MetaData\<close>, the log file and the calls sent so
  far.
\<close>

record state =
  db :: "string \<rightharpoonup> table"
  existing_tables_cache :: "string set"
  inspector_cache :: "string \<rightharpoonup> bool"
  metadata :: "string list"
  logfile :: "log_entry list"
  trace :: "event list"

definition send :: "event \<Rightarrow> state \<Rightarrow> state" where
  "send e s = s\<lparr>trace := trace s @ [e]\<rparr>"

definition logging :: "log_entry \<Rightarrow> state \<Rightarrow> state" where
  "logging m s = s\<lparr>logfile := logfile s @ [m]\<rparr>"

subsection \<open>Table creation\<close>

text \<open>
  \<^verbatim>\<open>self.inspector.has_table\<close>. The manager has one \<^verbatim>\<open>Inspector\<close> for its whole life, and
  the Inspector keeps every answer it has given: a name it has answered for is answered
  from its cache, yes or no, and nothing is sent. Otherwise the database is asked; an
  exception is no answer and is not kept.
\<close>

definition has_table :: "env \<Rightarrow> state \<Rightarrow> string \<Rightarrow> bool outcome \<times> state" where
  "has_table e s table_name =
     (case inspector_cache s table_name of
        Some answer \<Rightarrow> (Return answer, s)
      | None \<Rightarrow>
          let s1 = send (HasTable table_name) s in
          if db_raises e (HasTable table_name) then (Raise DatabaseError, s1)
          else
            let answer = (db s1 table_name \<noteq> None) in
            (Return answer,
             s1\<lparr>inspector_cache := (inspector_cache s1)(table_name \<mapsto> answer)\<rparr>))"

definition check_table_exists :: "env \<Rightarrow> state \<Rightarrow> string \<Rightarrow> bool outcome \<times> state" where
  "check_table_exists e s table_name =
     (if table_name \<in> existing_tables_cache s then (Return True, s)
      else
        case has_table e s table_name of
          (Raise x, s1) \<Rightarrow> (Raise x, s1)
        | (Return True, s1) \<Rightarrow>
            (Return True,
             s1\<lparr>existing_tables_cache := insert table_name (existing_tables_cache s1)\<rparr>)
        | (Return False, s1) \<Rightarrow> (Return False, s1))"

text \<open>\<^verbatim>\<open>create_indexes\<close> catches whatever its statements raise and logs it.\<close>

definition create_indexes :: "env \<Rightarrow> state \<Rightarrow> string \<Rightarrow> state" where
  "create_indexes e s table_name =
     (let s1 = send (CreateIndexes table_name) s in
      if db_raises e (CreateIndexes table_name) then logging (ErrorIndexes table_name) s1
      else s1)"

text \<open>The effect of a successful \<^verbatim>\<open>CREATE TABLE\<close> for each name: a new, empty table.\<close>

fun create_tables :: "string list \<Rightarrow> (string \<rightharpoonup> table) \<Rightarrow> (string \<rightharpoonup> table)" where
  "create_tables [] d = d"
| "create_tables (n # ns) d = create_tables ns (d(n \<mapsto> []))"

text \<open>
  \<^verbatim>\<open>create_table\<close>. The existence check stands before the \<^verbatim>\<open>try\<close>: what it raises
  leaves the function. Inside the \<^verbatim>\<open>try\<close>, \<^verbatim>\<open>Table(table_name, self.metadata, *columns)\<close>
  raises when the name is registered on the MetaData already; \<^verbatim>\<open>create_all\<close> creates
  every registered table the database does not have, in one transaction.
\<close>

definition create_table :: "env \<Rightarrow> state \<Rightarrow> string \<Rightarrow> bool outcome \<times> state" where
  "create_table e s table_name =
     (case check_table_exists e s table_name of
        (Raise x, s1) \<Rightarrow> (Raise x, s1)
      | (Return True, s1) \<Rightarrow> (Return True, s1)
      | (Return False, s1) \<Rightarrow>
          if table_name \<in> set (metadata s1)
          then (Return False, logging (ErrorCreateTable table_name) s1)
          else
            let s2 = s1\<lparr>metadata := metadata s1 @ [table_name]\<rparr>;
                pending = filter (\<lambda>n. db s2 n = None) (metadata s2);
                s3 = send (CreateAll pending) s2
            in if db_raises e (CreateAll pending)
               then (Return False, logging (ErrorCreateTable table_name) s3)
               else
                 let s4 = s3\<lparr>db := create_tables pending (db s3)\<rparr>;
                     s5 = create_indexes e s4 table_name
                 in (Return True,
                     s5\<lparr>existing_tables_cache := insert table_name (existing_tables_cache s5)\<rparr>))"

subsection \<open>Inserts\<close>

text \<open>
  \<^verbatim>\<open>INSERT ... ON CONFLICT (symbol, date) DO NOTHING\<close> on a table with the unique
  constraint on \<open>(symbol, date)\<close>: a record is appended unless a row with its symbol and
  date is there, from before or from an earlier record of the same statement.
\<close>

definition conflicts :: "table \<Rightarrow> row \<Rightarrow> bool" where
  "conflicts t r = (\<exists>x \<in> set t. c_symbol x = c_symbol r \<and> c_date x = c_date r)"

fun on_conflict_do_nothing :: "table \<Rightarrow> row list \<Rightarrow> table" where
  "on_conflict_do_nothing t [] = t"
| "on_conflict_do_nothing t (r # rs) =
     on_conflict_do_nothing (if conflicts t r then t else t @ [r]) rs"

text \<open>ASCII \<^verbatim>\<open>str.lower()\<close>, and \<^verbatim>\<open>str()\<close> of a list of names that hold no quote.\<close>

definition lower_char :: "char \<Rightarrow> char" where
  "lower_char c =
     (if CHR ''A'' \<le> c \<and> c \<le> CHR ''Z'' then char_of (of_char c + (32::nat)) else c)"

definition lower :: "string \<Rightarrow> string" where
  "lower s = map lower_char s"

fun join_str :: "string \<Rightarrow> string list \<Rightarrow> string" where
  "join_str sep [] = []"
| "join_str sep [x] = x"
| "join_str sep (x # y # ys) = x @ sep @ join_str sep (y # ys)"

definition str_list :: "string list \<Rightarrow> string" where
  "str_list xs =
     ''['' @ join_str '', '' (map (\<lambda>x. [CHR 0x27] @ x @ [CHR 0x27]) xs) @ '']''"

text \<open>
  The dict of values built from a DataFrame row, under the given symbol:
  \<^verbatim>\<open>datetime.strptime(row['Date'], '%d-%m-%Y').date()\<close>, \<^verbatim>\<open>float(row[...])\<close>,
  \<^verbatim>\<open>int(row['pattern_value'])\<close>, \<^verbatim>\<open>str(row['matched_patterns'])\<close>. It is \<open>None\<close> when
  \<^verbatim>\<open>strptime\<close> or a \<^verbatim>\<open>float()\<close> raises.
\<close>

definition record_of :: "string \<Rightarrow> encoded \<Rightarrow> row option" where
  "record_of symbol r =
     (case Date r of
        None \<Rightarrow> None
      | Some d \<Rightarrow>
          (case Volume r of
             None \<Rightarrow> None
           | Some v \<Rightarrow>
               (case prev_close r of
                  None \<Rightarrow> None
                | Some p \<Rightarrow>
                    (case avg_price r of
                       None \<Rightarrow> None
                     | Some a \<Rightarrow>
                         Some \<lparr>c_symbol = symbol, c_date = d, c_open = Open r,
                               c_high = High r, c_low = Low r, c_close = Close r,
                               c_volume = v, c_prev_close = p, c_avg_price = a,
                               c_pattern_value = pattern_value r,
                               c_matched_patterns = str_list (matched_patterns r)\<rparr>))))"

text \<open>
  Executing an insert statement inside \<^verbatim>\<open>with self.engine.begin()\<close>: it raises when the
  database does, or when the table does not exist; otherwise it commits.
\<close>

definition execute_insert :: "env \<Rightarrow> state \<Rightarrow> string \<Rightarrow> row list \<Rightarrow> bool \<times> state" where
  "execute_insert e s table_name records =
     (let s1 = send (InsertInto table_name records) s in
      if db_raises e (InsertInto table_name records) then (False, s1)
      else
        case db s1 table_name of
          None \<Rightarrow> (False, s1)
        | Some t \<Rightarrow>
            (True, s1\<lparr>db := (db s1)(table_name \<mapsto> on_conflict_do_nothing t records)\<rparr>))"

text \<open>The per-symbol table name, \<^verbatim>\<open>f"stock_{symbol.lower()}"\<close>.\<close>

definition stock_table :: "string \<Rightarrow> string" where
  "stock_table symbol = ''stock_'' @ lower symbol"

text \<open>
  \<^verbatim>\<open>insert_data\<close>. The result of \<^verbatim>\<open>create_table\<close> is not looked at. \<^verbatim>\<open>data.iloc[0]\<close>
  raises on an empty frame and the conversions raise on a malformed row, both inside the
  \<^verbatim>\<open>try\<close>.
\<close>

definition insert_data :: "env \<Rightarrow> state \<Rightarrow> string \<Rightarrow> encoded list \<Rightarrow> bool outcome \<times> state" where
  "insert_data e s symbol data =
     (let table_name = stock_table symbol in
      case create_table e s table_name of
        (Raise x, s1) \<Rightarrow> (Raise x, s1)
      | (Return created, s1) \<Rightarrow>
          (case data of
             [] \<Rightarrow> (Return False, logging (ErrorInsert symbol) s1)
           | r # rest \<Rightarrow>
               (case record_of symbol r of
                  None \<Rightarrow> (Return False, logging (ErrorInsert symbol) s1)
                | Some insert_data_dict \<Rightarrow>
                    (case execute_insert e s1 table_name [insert_data_dict] of
                       (False, s2) \<Rightarrow> (Return False, logging (ErrorInsert symbol) s2)
                     | (True, s2) \<Rightarrow> (Return True, s2)))))"

text \<open>\<^verbatim>\<open>df[pattern_cols].any(axis=1)\<close>: some pattern column of the row is not zero.\<close>

definition any_pattern :: "encoded \<Rightarrow> bool" where
  "any_pattern r = list_ex (\<lambda>(name, v). v \<noteq> 0) (flags r)"

text \<open>
  \<^verbatim>\<open>Table(table_name, self.metadata, autoload_with=self.engine)\<close>: the registered table,
  or its reflection from the database, which registers it; reflection raises when the
  database does or the table does not exist.
\<close>

definition autoload_table :: "env \<Rightarrow> state \<Rightarrow> string \<Rightarrow> bool \<times> state" where
  "autoload_table e s table_name =
     (if table_name \<in> set (metadata s) then (True, s)
      else
        let s1 = send (Reflect table_name) s in
        if db_raises e (Reflect table_name) \<or> db s1 table_name = None then (False, s1)
        else (True, s1\<lparr>metadata := metadata s1 @ [table_name]\<rparr>))"

text \<open>
  The loop that builds the records of the selected rows; it stops at the first row whose
  values do not convert.
\<close>

definition build_records :: "encoded list \<Rightarrow> row list option" where
  "build_records df_patterns = those (map (\<lambda>r. record_of (Symbol r) r) df_patterns)"

text \<open>
  \<^verbatim>\<open>bulk_insert_common\<close>. \<^verbatim>\<open>create_table\<close> is called first and its result is not looked
  at; then the frame is filtered, and an empty selection returns. The records are built
  before the \<^verbatim>\<open>try\<close>: a conversion that raises leaves the function.
\<close>

definition bulk_insert_common :: "env \<Rightarrow> state \<Rightarrow> encoded list \<Rightarrow> unit outcome \<times> state" where
  "bulk_insert_common e s df =
     (let table_name = ''common_stock_data'' in
      case create_table e s table_name of
        (Raise x, s1) \<Rightarrow> (Raise x, s1)
      | (Return created, s1) \<Rightarrow>
          let df_patterns = filter any_pattern df in
          if df_patterns = [] then (Return (), s1)
          else
            case build_records df_patterns of
              None \<Rightarrow> (Raise ConversionError, s1)
            | Some records \<Rightarrow>
                (case autoload_table e s1 table_name of
                   (False, s2) \<Rightarrow> (Return (), logging (ErrorBulkInsert table_name) s2)
                 | (True, s2) \<Rightarrow>
                     (case execute_insert e s2 table_name records of
                        (False, s3) \<Rightarrow> (Return (), logging (ErrorBulkInsert table_name) s3)
                      | (True, s3) \<Rightarrow>
                          (Return (),
                           logging (InfoBulkInserted (length records) table_name) s3))))"

section \<open>StockDataDownloader\<close>

text \<open>
  Python's \<^verbatim>\<open>date.weekday()\<close> is \<^verbatim>\<open>(toordinal() + 6) % 7\<close>, Monday being 0.
\<close>

definition weekday :: "date \<Rightarrow> int" where
  "weekday d = (d + 6) mod 7"

definition is_weekend :: "date \<Rightarrow> bool" where
  "is_weekend d = (weekday d \<ge> 5)"

text \<open>
  \<^verbatim>\<open>download_csv\<close>: whatever the request or the decoding raises is swallowed by the bare
  \<^verbatim>\<open>except\<close>, and nothing is logged.
\<close>

definition download_csv :: "env \<Rightarrow> state \<Rightarrow> date \<Rightarrow> string option \<times> state" where
  "download_csv e s d =
     (let s1 = send (HttpGet d) s in
      case http_get e d of
        RequestRaises \<Rightarrow> (None, s1)
      | Response status_code content \<Rightarrow>
          if status_code = 200 then (content, s1) else (None, s1))"

text \<open>
  \<^verbatim>\<open>df.groupby("Symbol")\<close>: one group per symbol, the symbols in sorted order, each
  group's rows in the order of the frame.
\<close>

definition groupby_Symbol :: "encoded list \<Rightarrow> (string \<times> encoded list) list" where
  "groupby_Symbol df =
     map (\<lambda>k. (k, filter (\<lambda>r. Symbol r = k) df)) (sort (remdups (map Symbol df)))"

text \<open>The loop \<^verbatim>\<open>for symbol, group in ...: self.db_manager.insert_data(symbol, group)\<close>.\<close>

fun insert_groups :: "env \<Rightarrow> state \<Rightarrow> (string \<times> encoded list) list \<Rightarrow> unit outcome \<times> state" where
  "insert_groups e s [] = (Return (), s)"
| "insert_groups e s ((symbol, grp) # rest) =
     (case insert_data e s symbol grp of
        (Raise x, s1) \<Rightarrow> (Raise x, s1)
      | (Return inserted, s1) \<Rightarrow> insert_groups e s1 rest)"

text \<open>The two write paths of a day, in the order of the source.\<close>

definition write_day :: "env \<Rightarrow> state \<Rightarrow> encoded list \<Rightarrow> unit outcome \<times> state" where
  "write_day e s df =
     (case bulk_insert_common e s df of
        (Raise x, s1) \<Rightarrow> (Raise x, s1)
      | (Return u, s1) \<Rightarrow> insert_groups e s1 (groupby_Symbol df))"

text \<open>The body of the \<^verbatim>\<open>try\<close> in \<^verbatim>\<open>process_single_date\<close>.\<close>

definition try_body :: "env \<Rightarrow> state \<Rightarrow> string \<Rightarrow> unit outcome \<times> state" where
  "try_body e s csv_file =
     (case read_clean e csv_file of
        None \<Rightarrow> (Raise PandasError, s)
      | Some df \<Rightarrow>
          if talib_raises e df then (Raise TalibError, s)
          else
            case apply_and_encode_patterns (talib e) df of
              None \<Rightarrow> (Raise EncodeError, s)
            | Some encoded_df \<Rightarrow> write_day e s encoded_df)"

text \<open>
  \<^verbatim>\<open>process_single_date\<close>: the weekend test and the download stand before the \<^verbatim>\<open>try\<close>;
  the handler logs the date and returns.
\<close>

definition process_single_date :: "env \<Rightarrow> state \<Rightarrow> date \<Rightarrow> unit outcome \<times> state" where
  "process_single_date e s date_str =
     (if is_weekend date_str then (Return (), s)
      else
        case download_csv e s date_str of
          (None, s1) \<Rightarrow> (Return (), s1)
        | (Some csv_file, s1) \<Rightarrow>
            (case try_body e s1 csv_file of
               (Raise x, s2) \<Rightarrow> (Return (), logging (ErrorProcessing date_str) s2)
             | (Return u, s2) \<Rightarrow> (Return (), s2)))"

text \<open>
  \<^verbatim>\<open>process_date_range\<close>: the loop \<^verbatim>\<open>while current <= end\<close>, one day at a time (the
  \<^verbatim>\<open>print\<close> of the day is left out). An exception that left \<^verbatim>\<open>process_single_date\<close> would
  leave the loop.
\<close>

function process_date_range :: "env \<Rightarrow> state \<Rightarrow> date \<Rightarrow> date \<Rightarrow> unit outcome \<times> state" where
  "process_date_range e s current end_date =
     (if current \<le> end_date then
        (case process_single_date e s current of
           (Raise x, s1) \<Rightarrow> (Raise x, s1)
         | (Return u, s1) \<Rightarrow> process_date_range e s1 (current + 1) end_date)
      else (Return (), s))"
  by pat_completeness auto
termination
  by (relation "measure (\<lambda>(e, s, current, end_date). nat (end_date + 1 - current))") auto

declare process_date_range.simps [simp del]

section \<open>Closed forms used in the proofs\<close>

text \<open>
  The 0/1 entry of row \<open>i\<close> in the column of catalog name \<open>n\<close>, the value of a list of
  such entries read as binary digits (most significant first), and the encoded row written
  out. \<open>apply_and_encode_patterns_rows\<close> below proves that the encoder computes exactly these.
\<close>

definition flag_of :: "talib \<Rightarrow> bar list \<Rightarrow> nat \<Rightarrow> string \<Rightarrow> int" where
  "flag_of ta df i n = (if detector_output ta df (the (map_of patterns n)) i \<noteq> 0 then 1 else 0)"

definition bits_value :: "int list \<Rightarrow> int" where
  "bits_value vs = foldl (\<lambda>acc v. 2 * acc + (if v = 1 then 1 else 0)) 0 vs"

definition encoded_row :: "talib \<Rightarrow> bar list \<Rightarrow> nat \<Rightarrow> encoded" where
  "encoded_row ta df i =
     \<lparr>Symbol = Symbol (df ! i), Date = Date (df ! i), Open = Open (df ! i),
      High = High (df ! i), Low = Low (df ! i), Close = Close (df ! i),
      Volume = Volume (df ! i), prev_close = prev_close (df ! i),
      avg_price = avg_price (df ! i),
      flags = map (\<lambda>n. (n, flag_of ta df i n)) pattern_names,
      pattern_value = bits_value (map (flag_of ta df i) pattern_names),
      matched_patterns = filter (\<lambda>n. flag_of ta df i n = 1) pattern_names\<rparr>"

section \<open>Notions the properties are stated with\<close>

text \<open>
  The natural key of a stored row, a table with at most one row per key, and a database
  all of whose tables are such.
\<close>

definition key :: "row \<Rightarrow> string \<times> date" where
  "key r = (c_symbol r, c_date r)"

definition unique_keys :: "table \<Rightarrow> bool" where
  "unique_keys t = distinct (map key t)"

definition store_ok :: "state \<Rightarrow> bool" where
  "store_ok s = (\<forall>n t. db s n = Some t \<longrightarrow> unique_keys t)"

text \<open>A sequence of write operations on the manager; a raised exception leaves the state as
  the operation left it, and the next operation goes on from there.\<close>

datatype write_op = InsertData string "encoded list" | BulkInsertCommon "encoded list"

fun apply_op :: "env \<Rightarrow> state \<Rightarrow> write_op \<Rightarrow> state" where
  "apply_op e s (InsertData symbol data) = snd (insert_data e s symbol data)"
| "apply_op e s (BulkInsertCommon df) = snd (bulk_insert_common e s df)"

definition run_ops :: "env \<Rightarrow> state \<Rightarrow> write_op list \<Rightarrow> state" where
  "run_ops e s ops = foldl (apply_op e) s ops"

text \<open>
  A fresh \<^verbatim>\<open>StockDatabaseManager\<close> (\<^verbatim>\<open>existing_tables_cache = set()\<close>, a new \<^verbatim>\<open>MetaData()\<close>,
  a new \<^verbatim>\<open>Inspector\<close>) on a database without tables, with an empty log.
\<close>

definition initial_state :: state where
  "initial_state =
     \<lparr>db = Map.empty, existing_tables_cache = {}, inspector_cache = Map.empty,
      metadata = [], logfile = [], trace = []\<rparr>"

text \<open>The events of a trace that are inserts, and those that are HTTP requests.\<close>

fun is_insert :: "event \<Rightarrow> bool" where
  "is_insert (InsertInto n rs) = True"
| "is_insert ev = False"

fun is_request :: "event \<Rightarrow> bool" where
  "is_request (HttpGet d) = True"
| "is_request ev = False"


definition consistent :: "state \<Rightarrow> bool" where
  "consistent s =
     ((\<forall>n \<in> set (metadata s). db s n \<noteq> None) \<and>
      (\<forall>n \<in> existing_tables_cache s. db s n \<noteq> None) \<and>
      (\<forall>n. inspector_cache s n = Some True \<longrightarrow> db s n \<noteq> None))"





section \<open>Sample inputs\<close>

text \<open>
  Concrete inputs on which the theorems are instantiated: a price row, and detector
  assignments that report one raw pattern (value 100) on every row and nothing else.
  The date 739252 is 1 January 2025, a Wednesday; 739254 to 739257 are the Friday, the
  Saturday, the Sunday and the Monday after it.
\<close>

definition hammer_only :: talib where
  "hammer_only f opens highs lows closes i = (if f = CDLHAMMER then 100 else 0)"

definition spinning_top_only :: talib where
  "spinning_top_only f opens highs lows closes i = (if f = CDLSPINNINGTOP then 100 else 0)"

definition sample_bar :: bar where
  "sample_bar =
     \<lparr>Symbol = ''ABC'', Date = Some 739252, Open = 10, High = 12, Low = 9, Close = 11,
      Volume = Some 1000, prev_close = Some 10, avg_price = Some 10.5\<rparr>"

text \<open>The sample price row as the encoder returns it under \<open>hammer_only\<close>.\<close>

definition sample_row :: encoded where
  "sample_row =
     \<lparr>Symbol = ''ABC'', Date = Some 739252, Open = 10, High = 12, Low = 9, Close = 11,
      Volume = Some 1000, prev_close = Some 10, avg_price = Some 10.5,
      flags = [(''Hammer'', 1), (''InvertedHammer'', 0), (''DragonflyDoji'', 0),
               (''PiercingLine'', 0), (''BullishMarubozu'', 0), (''BullishSpinningTop'', 0),
               (''HangingMan'', 0), (''ShootingStar'', 0), (''GravestoneDoji'', 0),
               (''BearishSpinningTop'', 0), (''Doji'', 0), (''LongLeggedDoji'', 0)],
      pattern_value = 2048, matched_patterns = [''Hammer'']\<rparr>"

text \<open>The record stored for it, and the text \<^verbatim>\<open>['Hammer']\<close> of its matched patterns.\<close>

definition sample_record :: row where
  "sample_record =
     \<lparr>c_symbol = ''ABC'', c_date = 739252, c_open = 10, c_high = 12, c_low = 9,
      c_close = 11, c_volume = 1000, c_prev_close = 10, c_avg_price = 10.5,
      c_pattern_value = 2048,
      c_matched_patterns = CHR ''['' # CHR 0x27 # ''Hammer'' @ [CHR 0x27, CHR '']'']\<rparr>"

text \<open>
  A second row for the same symbol and day (other prices) with its record, a row without
  pattern, and the sample row without a date.
\<close>

definition restated_row :: encoded where
  "restated_row = sample_row\<lparr>Close := 11.5, Volume := Some 1200\<rparr>"




text \<open>
  Environments: one in which nothing fails and every day's file holds the sample row;
  one whose database refuses to create tables; one whose database refuses the first
  creation of the common table alone and nothing else; one whose database is down; one
  whose HTTP request raises; one whose file does not parse.
\<close>

definition reliable :: env where
  "reliable =
     \<lparr>db_raises = (\<lambda>ev. False),
      http_get = (\<lambda>d. Response 200 (Some ''SYMBOL, SERIES, DATE1, PREV_CLOSE, OPEN_PRICE'')),
      read_clean = (\<lambda>body. Some [sample_bar]),
      talib_raises = (\<lambda>df. False),
      talib = hammer_only\<rparr>"

definition no_ddl :: env where
  "no_ddl = reliable\<lparr>db_raises := (\<lambda>ev. case ev of CreateAll ns \<Rightarrow> True | _ \<Rightarrow> False)\<rparr>"



definition offline :: env where
  "offline = reliable\<lparr>http_get := (\<lambda>d. RequestRaises)\<rparr>"

definition garbled :: env where
  "garbled = reliable\<lparr>read_clean := (\<lambda>body. None)\<rparr>"


section \<open>The encoder computes the bitmask\<close>

lemma add_pattern_columns_catalog:
  "add_pattern_columns ta df pattern_names =
     Some (map (\<lambda>n. (n, flag_column ta df (the (map_of patterns n)))) pattern_names)"
  by (simp add: pattern_names_def patterns_def)

lemma row_items_catalog:
  assumes "i < length df"
  shows "row_items (map (\<lambda>n. (n, flag_column ta df (the (map_of patterns n)))) names) i =
         map (\<lambda>n. (n, flag_of ta df i n)) names"
  using assms by (simp add: row_items_def flag_column_def flag_of_def)

lemma binary_digits:
  "foldl (\<lambda>acc c. 2 * acc + (if c = CHR ''1'' then 1 else 0)) a (concat (map str_flag vs)) =
   foldl (\<lambda>acc v. 2 * acc + (if v = 1 then 1 else (0::int))) a vs"
  by (induction vs arbitrary: a) (simp_all add: str_flag_def)

lemma int_base2_flags:
  assumes "vs \<noteq> []"
  shows "int_base2 (concat (map str_flag vs)) =
         Some (foldl (\<lambda>acc v. 2 * acc + (if v = 1 then 1 else 0)) 0 vs)"
proof -
  have "concat (map str_flag vs) \<noteq> []"
    using assms by (cases vs) (simp_all add: str_flag_def)
  moreover have "\<forall>c \<in> set (concat (map str_flag vs)). c = CHR ''0'' \<or> c = CHR ''1''"
    by (auto simp: str_flag_def split: if_splits)
  ultimately show ?thesis
    unfolding int_base2_def using binary_digits[of 0 vs] by auto
qed

lemma those_map_Some:
  "(\<And>x. x \<in> set xs \<Longrightarrow> f x = Some (g x)) \<Longrightarrow> those (map f xs) = Some (map g xs)"
  by (induction xs) simp_all

lemma bits_value_snoc: "bits_value (vs @ [v]) = 2 * bits_value vs + (if v = 1 then 1 else 0)"
  by (simp add: bits_value_def)

lemma bits_value_range: "0 \<le> bits_value vs \<and> bits_value vs < 2 ^ length vs"
  by (induction vs rule: rev_induct) (auto simp: bits_value_snoc bits_value_def)

lemma bits_value_bit:
  "k < length vs \<Longrightarrow> bit (bits_value vs) (length vs - 1 - k) = (vs ! k = 1)"
proof (induction vs arbitrary: k rule: rev_induct)
  case Nil
  then show ?case by simp
next
  case (snoc v vs)
  show ?case
  proof (cases "k = length vs")
    case True
    then show ?thesis by (simp add: bits_value_snoc bit_0)
  next
    case False
    with snoc.prems have k: "k < length vs" by simp
    then have pos: "length (vs @ [v]) - 1 - k = Suc (length vs - 1 - k)" by simp
    have "bit (bits_value (vs @ [v])) (Suc (length vs - 1 - k)) =
          bit (bits_value vs) (length vs - 1 - k)"
      by (simp add: bits_value_snoc bit_Suc)
    with snoc.IH[OF k] k pos show ?thesis by (simp add: nth_append)
  qed
qed

lemma matched_of_items:
  "map fst (filter (\<lambda>(name, v). v = 1) (map (\<lambda>n. (n, g n)) ns)) = filter (\<lambda>n. g n = (1::int)) ns"
  by (induction ns) simp_all

lemma encode_row_catalog:
  "encode_row b (map (\<lambda>n. (n, g n)) pattern_names) =
     Some \<lparr>Symbol = Symbol b, Date = Date b, Open = Open b, High = High b, Low = Low b,
           Close = Close b, Volume = Volume b, prev_close = prev_close b,
           avg_price = avg_price b,
           flags = map (\<lambda>n. (n, g n)) pattern_names,
           pattern_value = bits_value (map g pattern_names),
           matched_patterns = filter (\<lambda>n. g n = 1) pattern_names\<rparr>"
proof -
  have ne: "map g pattern_names \<noteq> []" by (simp add: pattern_names_def)
  have s: "concat (map (\<lambda>(name, v). str_flag v) (map (\<lambda>n. (n, g n)) pattern_names)) =
        concat (map str_flag (map g pattern_names))"
    by (simp add: comp_def)
  show ?thesis
    unfolding encode_row_def s int_base2_flags[OF ne] matched_of_items bits_value_def by simp
qed

lemma apply_and_encode_patterns_rows:
  assumes "df \<noteq> []"
  shows "apply_and_encode_patterns ta df = Some (map (encoded_row ta df) [0..<length df])"
proof -
  have "those (map (\<lambda>i. encode_row (df ! i)
           (row_items (map (\<lambda>n. (n, flag_column ta df (the (map_of patterns n)))) pattern_names) i))
         [0..<length df]) = Some (map (encoded_row ta df) [0..<length df])"
    by (rule those_map_Some)
       (simp add: row_items_catalog encode_row_catalog encoded_row_def comp_def)
  then show ?thesis
    unfolding apply_and_encode_patterns_def add_pattern_columns_catalog using assms by simp
qed

lemma apply_and_encode_patterns_at:
  "i < length df \<Longrightarrow>
     apply_and_encode_patterns ta df = Some (map (encoded_row ta df) [0..<length df])"
  by (rule apply_and_encode_patterns_rows) auto


lemma length_pattern_names: "length pattern_names = 12"
  by (simp add: pattern_names_def)

lemma catalog_keys: "\<forall>n \<in> set pattern_names. \<exists>f. map_of patterns n = Some f"
  by (simp add: pattern_names_def patterns_def)

lemma catalog_lookup:
  "k < length pattern_names \<Longrightarrow> \<exists>f. map_of patterns (pattern_names ! k) = Some f"
  using catalog_keys nth_mem by blast

lemma encoded_row_nth:
  "i < length df \<Longrightarrow> map (encoded_row ta df) [0..<length df] ! i = encoded_row ta df i"
  by simp

lemma catalog_functions:
  "map (\<lambda>n. the (map_of patterns n)) pattern_names =
     [CDLHAMMER, CDLINVERTEDHAMMER, CDLDRAGONFLYDOJI, CDLPIERCING, CDLMARUBOZU, CDLSPINNINGTOP,
      CDLHANGINGMAN, CDLSHOOTINGSTAR, CDLGRAVESTONEDOJI, CDLSPINNINGTOP, CDLDOJI,
      CDLLONGLEGGEDDOJI]"
  by (simp add: pattern_names_def patterns_def)

lemma row_flags:
  "map (flag_of ta df i) pattern_names =
     map (\<lambda>f. if detector_output ta df f i \<noteq> 0 then 1 else 0)
       [CDLHAMMER, CDLINVERTEDHAMMER, CDLDRAGONFLYDOJI, CDLPIERCING, CDLMARUBOZU,
        CDLSPINNINGTOP, CDLHANGINGMAN, CDLSHOOTINGSTAR, CDLGRAVESTONEDOJI, CDLSPINNINGTOP,
        CDLDOJI, CDLLONGLEGGEDDOJI]"
proof -
  have "map (flag_of ta df i) pattern_names =
        map (\<lambda>f. if detector_output ta df f i \<noteq> 0 then 1 else 0)
          (map (\<lambda>n. the (map_of patterns n)) pattern_names)"
    by (simp add: flag_of_def comp_def)
  then show ?thesis by (simp only: catalog_functions)
qed

lemma filter_by_flags:
  "filter (\<lambda>n. g n = (1::int)) ns = map fst (filter (\<lambda>(n, v). v = 1) (zip ns (map g ns)))"
  by (induction ns) simp_all

lemma hammer_only_row:
  assumes h: "detector_output ta df CDLHAMMER i \<noteq> 0"
    and o: "\<forall>g. g \<noteq> CDLHAMMER \<longrightarrow> detector_output ta df g i = 0"
  shows "pattern_value (encoded_row ta df i) = 2 ^ 11 \<and>
         matched_patterns (encoded_row ta df i) = [''Hammer'']"
proof -
  have vs: "map (flag_of ta df i) pattern_names = [1, 0, 0, 0, 0, 0, 0, 0, 0, 0, 0, 0]"
    unfolding row_flags using h o by simp
  have pv: "pattern_value (encoded_row ta df i) = 2 ^ 11"
    by (simp add: encoded_row_def vs bits_value_def)
  have "matched_patterns (encoded_row ta df i) =
        map fst (filter (\<lambda>(n, v). v = 1)
          (zip pattern_names (map (flag_of ta df i) pattern_names)))"
    by (simp add: encoded_row_def filter_by_flags)
  also have "\<dots> = [''Hammer'']"
    unfolding vs by (simp add: pattern_names_def)
  finally show ?thesis using pv by simp
qed

lemma spinning_top_flags:
  "flag_of ta df i ''BullishSpinningTop'' = flag_of ta df i ''BearishSpinningTop''"
  by (simp add: flag_of_def patterns_def)

lemma spinning_top_names:
  "''BullishSpinningTop'' \<in> set pattern_names \<and> ''BearishSpinningTop'' \<in> set pattern_names \<and>
   pattern_names ! 5 = ''BullishSpinningTop'' \<and> pattern_names ! 9 = ''BearishSpinningTop''"
  by (simp add: pattern_names_def)

lemma map_of_items:
  "map_of (map (\<lambda>n. (n, g n)) ns) k = (if k \<in> set ns then Some (g k) else None)"
  by (induction ns) simp_all

text \<open>
  Claim C1. For every row \<open>i\<close> of the input and every position \<open>k\<close> of the twelve-entry
  catalog, the encoder returns, \<open>pattern_value\<close> lies in \<open>[0, 2^12)\<close>, and its bit \<open>11 - k\<close>
  (the first catalog entry is the most significant bit) is set exactly when the detector
  of entry \<open>k\<close> returned a non-zero value for that row. In particular a row on which the
  Hammer detector alone fires has \<open>pattern_value = 2^11\<close> and
  \<open>matched_patterns = ['Hammer']\<close>.
\<close>

theorem pattern_value_bitmask:
  assumes "i < length df" and "k < length pattern_names"
  shows "\<exists>rows f.
           apply_and_encode_patterns ta df = Some rows \<and> length rows = length df \<and>
           length pattern_names = 12 \<and>
           map_of patterns (pattern_names ! k) = Some f \<and>
           0 \<le> pattern_value (rows ! i) \<and> pattern_value (rows ! i) < 2 ^ 12 \<and>
           (bit (pattern_value (rows ! i)) (11 - k) \<longleftrightarrow> detector_output ta df f i \<noteq> 0) \<and>
           (detector_output ta df CDLHAMMER i \<noteq> 0 \<and>
              (\<forall>g. g \<noteq> CDLHAMMER \<longrightarrow> detector_output ta df g i = 0) \<longrightarrow>
            pattern_value (rows ! i) = 2 ^ 11 \<and> matched_patterns (rows ! i) = [''Hammer''])"
proof -
  obtain f where f: "map_of patterns (pattern_names ! k) = Some f"
    using catalog_lookup[OF assms(2)] by blast
  let ?vs = "map (flag_of ta df i) pattern_names"
  have pv: "pattern_value (encoded_row ta df i) = bits_value ?vs"
    by (simp add: encoded_row_def)
  have len: "length ?vs = 12" by (simp add: length_pattern_names)
  have range: "0 \<le> bits_value ?vs \<and> bits_value ?vs < 2 ^ 12"
    using bits_value_range[of ?vs] len by simp
  have k: "k < length ?vs" using assms(2) by simp
  have "bit (bits_value ?vs) (length ?vs - 1 - k) = (?vs ! k = 1)"
    by (rule bits_value_bit[OF k])
  moreover have "?vs ! k = 1 \<longleftrightarrow> detector_output ta df f i \<noteq> 0"
    using assms(2) f by (simp add: flag_of_def)
  ultimately have b: "bit (bits_value ?vs) (11 - k) \<longleftrightarrow> detector_output ta df f i \<noteq> 0"
    using len by simp
  show ?thesis
    unfolding apply_and_encode_patterns_at[OF assms(1)]
    using assms(1) f pv range b hammer_only_row[of ta df i] length_pattern_names
    by (intro exI[of _ "map (encoded_row ta df) [0..<length df]"] exI[of _ f]) simp
qed

theorem pattern_value_bitmask_witness:
  "(0::nat) < length [sample_bar] \<and> (0::nat) < length pattern_names \<and>
   (\<exists>rows. apply_and_encode_patterns hammer_only [sample_bar] = Some rows \<and>
      pattern_value (rows ! 0) = 2048 \<and> matched_patterns (rows ! 0) = [''Hammer''] \<and>
      bit (pattern_value (rows ! 0)) 11)"
proof -
  have i: "(0::nat) < length [sample_bar]" by simp
  have k: "(0::nat) < length pattern_names" by (simp add: pattern_names_def)
  have h: "detector_output hammer_only [sample_bar] CDLHAMMER 0 \<noteq> 0"
    by (simp add: detector_output_def hammer_only_def)
  have o: "\<forall>g. g \<noteq> CDLHAMMER \<longrightarrow> detector_output hammer_only [sample_bar] g 0 = 0"
    by (simp add: detector_output_def hammer_only_def)
  have f: "map_of patterns (pattern_names ! 0) = Some CDLHAMMER"
    by (simp add: pattern_names_def patterns_def)
  from pattern_value_bitmask[OF i k, of hammer_only] h o f i k show ?thesis
    by auto
qed

text \<open>
  Claim C10. \<open>BullishSpinningTop\<close> and \<open>BearishSpinningTop\<close> are both bound to
  \<open>talib.CDLSPINNINGTOP\<close>: on every row their two columns are equal, the two
  corresponding bits of \<open>pattern_value\<close> (catalog positions 5 and 9) are equal, and
  \<open>matched_patterns\<close> holds both names or neither.
\<close>

theorem spinning_top_columns_identical:
  assumes "i < length df"
  shows "\<exists>rows. apply_and_encode_patterns ta df = Some rows \<and>
           map_of patterns ''BullishSpinningTop'' = Some CDLSPINNINGTOP \<and>
           map_of patterns ''BearishSpinningTop'' = Some CDLSPINNINGTOP \<and>
           map_of (flags (rows ! i)) ''BullishSpinningTop'' =
             map_of (flags (rows ! i)) ''BearishSpinningTop'' \<and>
           pattern_names ! 5 = ''BullishSpinningTop'' \<and>
           pattern_names ! 9 = ''BearishSpinningTop'' \<and>
           (bit (pattern_value (rows ! i)) (11 - 5) \<longleftrightarrow> bit (pattern_value (rows ! i)) (11 - 9)) \<and>
           (''BullishSpinningTop'' \<in> set (matched_patterns (rows ! i)) \<longleftrightarrow>
            ''BearishSpinningTop'' \<in> set (matched_patterns (rows ! i)))"
proof -
  let ?vs = "map (flag_of ta df i) pattern_names"
  let ?row = "encoded_row ta df i"
  have pv: "pattern_value ?row = bits_value ?vs"
    by (simp add: encoded_row_def)
  have len: "length ?vs = 12" by (simp add: length_pattern_names)
  have b5: "bit (bits_value ?vs) (length ?vs - 1 - 5) = (?vs ! 5 = 1)"
    by (rule bits_value_bit) (simp add: length_pattern_names)
  have b9: "bit (bits_value ?vs) (length ?vs - 1 - 9) = (?vs ! 9 = 1)"
    by (rule bits_value_bit) (simp add: length_pattern_names)
  have same: "?vs ! 5 = ?vs ! 9"
    unfolding row_flags by simp
  have bits: "bit (bits_value ?vs) (11 - 5) \<longleftrightarrow> bit (bits_value ?vs) (11 - 9)"
    using b5 b9 same len by simp
  have fl: "map_of (flags ?row) ''BullishSpinningTop'' = map_of (flags ?row) ''BearishSpinningTop''"
    using spinning_top_names spinning_top_flags[of ta df i]
    by (simp add: encoded_row_def map_of_items)
  have m: "''BullishSpinningTop'' \<in> set (matched_patterns ?row) \<longleftrightarrow>
           ''BearishSpinningTop'' \<in> set (matched_patterns ?row)"
    using spinning_top_names spinning_top_flags[of ta df i]
    by (simp add: encoded_row_def)
  have p: "map_of patterns ''BullishSpinningTop'' = Some CDLSPINNINGTOP \<and>
           map_of patterns ''BearishSpinningTop'' = Some CDLSPINNINGTOP"
    by (simp add: patterns_def)
  show ?thesis
    unfolding apply_and_encode_patterns_at[OF assms]
    using assms pv bits fl m spinning_top_names p
    by (intro exI[of _ "map (encoded_row ta df) [0..<length df]"]) simp
qed

theorem spinning_top_columns_identical_witness:
  "(0::nat) < length [sample_bar] \<and>
   (\<exists>rows. apply_and_encode_patterns spinning_top_only [sample_bar] = Some rows \<and>
      (bit (pattern_value (rows ! 0)) (11 - 5) \<longleftrightarrow> bit (pattern_value (rows ! 0)) (11 - 9)) \<and>
      (''BullishSpinningTop'' \<in> set (matched_patterns (rows ! 0)) \<longleftrightarrow>
       ''BearishSpinningTop'' \<in> set (matched_patterns (rows ! 0))))"
proof -
  have i: "(0::nat) < length [sample_bar]" by simp
  from spinning_top_columns_identical[OF i, of spinning_top_only] i show ?thesis
    by blast
qed

section \<open>Bullish and bearish catalog entries\<close>

lemma and_of_bool_nonzero: "(v::int) AND of_bool b \<noteq> 0 \<Longrightarrow> b"
  by (cases b) simp_all

lemma engine_marubozu_discriminated:
  "(bullish_marubozu ta opens h l c i \<noteq> 0 \<longrightarrow> c ! i > opens ! i) \<and>
   (bearish_marubozu ta opens h l c i \<noteq> 0 \<longrightarrow> c ! i < opens ! i) \<and>
   \<not> (bullish_marubozu ta opens h l c i \<noteq> 0 \<and> bearish_marubozu ta opens h l c i \<noteq> 0)"
proof -
  have u: "bullish_marubozu ta opens h l c i \<noteq> 0 \<longrightarrow> c ! i > opens ! i"
    unfolding bullish_marubozu_def using and_of_bool_nonzero by blast
  have d: "bearish_marubozu ta opens h l c i \<noteq> 0 \<longrightarrow> c ! i < opens ! i"
    unfolding bearish_marubozu_def using and_of_bool_nonzero by blast
  from u d show ?thesis by auto
qed

lemma engine_marubozu_entries:
  "map_of (engine_patterns ta) 6 = Some (''Bullish Marubozu'', bullish_marubozu ta) \<and>
   map_of (engine_patterns ta) 7 = Some (''Bearish Marubozu'', bearish_marubozu ta) \<and>
   map_of (detect_patterns ta d) 6 =
     Some (bullish_marubozu ta (ohlc_open d) (ohlc_high d) (ohlc_low d) (ohlc_close d)) \<and>
   map_of (detect_patterns ta d) 7 =
     Some (bearish_marubozu ta (ohlc_open d) (ohlc_high d) (ohlc_low d) (ohlc_close d))"
  by (simp add: engine_patterns_def detect_patterns_def)

text \<open>
  Claim C4, evaluated on \<open>CandlePatternRecognizer\<close>. Its catalog binds
  \<open>BullishSpinningTop\<close> and \<open>BearishSpinningTop\<close> to the raw \<open>CDLSPINNINGTOP\<close> and
  \<open>BullishMarubozu\<close> to the raw \<open>CDLMARUBOZU\<close>; no detector looks at close against open.
  A row on which \<open>CDLSPINNINGTOP\<close> is not zero is matched by both spinning-top entries,
  whatever its open and close, and \<open>BullishMarubozu\<close> is set by any non-zero
  \<open>CDLMARUBOZU\<close>. (\<open>PatternEngine\<close> does discriminate its Marubozu pair:
  \<open>engine_marubozu_discriminated\<close>.)
\<close>

theorem spinning_top_pair_not_discriminated:
  assumes "i < length df" and "detector_output ta df CDLSPINNINGTOP i \<noteq> 0"
  shows "\<exists>rows. apply_and_encode_patterns ta df = Some rows \<and>
           ''BullishSpinningTop'' \<in> set (matched_patterns (rows ! i)) \<and>
           ''BearishSpinningTop'' \<in> set (matched_patterns (rows ! i)) \<and>
           (''BullishMarubozu'' \<in> set (matched_patterns (rows ! i)) \<longleftrightarrow>
              detector_output ta df CDLMARUBOZU i \<noteq> 0)"
proof -
  let ?row = "encoded_row ta df i"
  have f: "flag_of ta df i ''BullishSpinningTop'' = 1"
    "flag_of ta df i ''BearishSpinningTop'' = 1"
    using assms(2) by (simp_all add: flag_of_def patterns_def)
  have m: "flag_of ta df i ''BullishMarubozu'' = 1 \<longleftrightarrow> detector_output ta df CDLMARUBOZU i \<noteq> 0"
    by (simp add: flag_of_def patterns_def)
  have n: "''BullishMarubozu'' \<in> set pattern_names"
    by (simp add: pattern_names_def)
  have "''BullishSpinningTop'' \<in> set (matched_patterns ?row) \<and>
        ''BearishSpinningTop'' \<in> set (matched_patterns ?row) \<and>
        (''BullishMarubozu'' \<in> set (matched_patterns ?row) \<longleftrightarrow>
           detector_output ta df CDLMARUBOZU i \<noteq> 0)"
    using spinning_top_names f m n by (simp add: encoded_row_def)
  then show ?thesis
    unfolding apply_and_encode_patterns_at[OF assms(1)] using assms(1)
    by (intro exI[of _ "map (encoded_row ta df) [0..<length df]"]) simp
qed

theorem spinning_top_pair_not_discriminated_witness:
  "(0::nat) < length [sample_bar] \<and>
   detector_output spinning_top_only [sample_bar] CDLSPINNINGTOP 0 \<noteq> 0 \<and>
   Close sample_bar > Open sample_bar \<and>
   (\<exists>rows. apply_and_encode_patterns spinning_top_only [sample_bar] = Some rows \<and>
      ''BullishSpinningTop'' \<in> set (matched_patterns (rows ! 0)) \<and>
      ''BearishSpinningTop'' \<in> set (matched_patterns (rows ! 0)))"
proof -
  have i: "(0::nat) < length [sample_bar]" by simp
  have d: "detector_output spinning_top_only [sample_bar] CDLSPINNINGTOP 0 \<noteq> 0"
    by (simp add: detector_output_def spinning_top_only_def)
  have c: "Close sample_bar > Open sample_bar" by (simp add: sample_bar_def)
  from spinning_top_pair_not_discriminated[OF i d] i d c show ?thesis by blast
qed

section \<open>The store: basic facts and the uniqueness invariant\<close>

lemma db_send [simp]: "db (send ev s) = db s"
  and cache_send [simp]: "existing_tables_cache (send ev s) = existing_tables_cache s"
  and inspector_send [simp]: "inspector_cache (send ev s) = inspector_cache s"
  and metadata_send [simp]: "metadata (send ev s) = metadata s"
  and logfile_send [simp]: "logfile (send ev s) = logfile s"
  and trace_send [simp]: "trace (send ev s) = trace s @ [ev]"
  by (simp_all add: send_def)

lemma db_logging [simp]: "db (logging m s) = db s"
  and cache_logging [simp]: "existing_tables_cache (logging m s) = existing_tables_cache s"
  and inspector_logging [simp]: "inspector_cache (logging m s) = inspector_cache s"
  and metadata_logging [simp]: "metadata (logging m s) = metadata s"
  and logfile_logging [simp]: "logfile (logging m s) = logfile s @ [m]"
  and trace_logging [simp]: "trace (logging m s) = trace s"
  by (simp_all add: logging_def)

lemma conflicts_key: "conflicts t r \<longleftrightarrow> key r \<in> set (map key t)"
  unfolding conflicts_def key_def set_map image_iff prod.inject by metis

lemma on_conflict_unique:
  "unique_keys t \<Longrightarrow> unique_keys (on_conflict_do_nothing t rs)"
  by (induction rs arbitrary: t) (auto simp: unique_keys_def conflicts_key)

lemma create_tables_lookup:
  "create_tables ns d n = (if n \<in> set ns then Some [] else d n)"
  by (induction ns arbitrary: d) auto

lemma store_ok_send [simp]: "store_ok (send ev s) = store_ok s"
  and store_ok_logging [simp]: "store_ok (logging m s) = store_ok s"
  by (simp_all add: store_ok_def)

text \<open>What \<open>create_table\<close> does to the database: nothing, or new empty tables for names
  the database did not have.\<close>

lemma db_create_table:
  "db (snd (create_table e s n)) = db s \<or>
   db (snd (create_table e s n)) =
     create_tables (filter (\<lambda>m. db s m = None) (metadata s @ [n])) (db s)"
  by (auto simp: create_table_def check_table_exists_def has_table_def create_indexes_def
             Let_def
           split: prod.splits outcome.splits bool.splits if_splits option.splits)


lemma create_table_lookup:
  "db (snd (create_table e s n)) m = db s m \<or>
   (db s m = None \<and> db (snd (create_table e s n)) m = Some [])"
  using db_create_table[of e s n]
  by (auto simp: create_tables_lookup split: if_splits)

lemma store_ok_create_table:
  assumes "store_ok s"
  shows "store_ok (snd (create_table e s n))"
  unfolding store_ok_def
proof (intro allI impI)
  fix m t
  assume "db (snd (create_table e s n)) m = Some t"
  with create_table_lookup[of e s n m] have "db s m = Some t \<or> t = []" by auto
  with assms show "unique_keys t" by (auto simp: store_ok_def unique_keys_def)
qed

lemma store_ok_execute_insert:
  "execute_insert e s n rs = (b, s') \<Longrightarrow> store_ok s \<Longrightarrow> store_ok s'"
  by (auto simp: execute_insert_def Let_def store_ok_def on_conflict_unique
           split: option.splits if_splits)

lemma store_ok_autoload_table:
  "autoload_table e s n = (b, s') \<Longrightarrow> store_ok s \<Longrightarrow> store_ok s'"
  by (auto simp: autoload_table_def Let_def store_ok_def split: if_splits)

lemma store_ok_insert_data:
  assumes "store_ok s"
  shows "store_ok (snd (insert_data e s symbol data))"
proof -
  obtain r s1 where c: "create_table e s (stock_table symbol) = (r, s1)"
    by (cases "create_table e s (stock_table symbol)")
  then have s1: "store_ok s1"
    using store_ok_create_table[OF assms, of e "stock_table symbol"] by simp
  show ?thesis
    using s1 c unfolding insert_data_def Let_def
    by (auto split: outcome.splits list.splits prod.splits bool.splits option.splits
             dest: store_ok_execute_insert)
qed

lemma store_ok_bulk_insert_common:
  assumes "store_ok s"
  shows "store_ok (snd (bulk_insert_common e s df))"
proof -
  obtain r s1 where c: "create_table e s ''common_stock_data'' = (r, s1)"
    by (cases "create_table e s ''common_stock_data''")
  then have s1: "store_ok s1"
    using store_ok_create_table[OF assms, of e "''common_stock_data''"] by simp
  show ?thesis
    using s1 c unfolding bulk_insert_common_def Let_def
    by (auto split: outcome.splits prod.splits bool.splits option.splits
             dest: store_ok_execute_insert store_ok_autoload_table)
qed

lemma store_ok_apply_op: "store_ok s \<Longrightarrow> store_ok (apply_op e s w)"
  by (cases w) (simp_all add: store_ok_insert_data store_ok_bulk_insert_common)

lemma store_ok_run_ops: "store_ok s \<Longrightarrow> store_ok (run_ops e s ops)"
  unfolding run_ops_def
  by (induction ops arbitrary: s) (simp_all add: store_ok_apply_op)

lemma store_ok_initial_state: "store_ok initial_state"
  by (simp add: store_ok_def initial_state_def)

lemma stock_table_ABC: "stock_table ''ABC'' = ''stock_abc''"
  unfolding stock_table_def by code_simp

lemma record_of_sample_row: "record_of ''ABC'' sample_row = Some sample_record"
  by (simp add: record_of_def sample_row_def sample_record_def str_list_def)



text \<open>
  Claim C3. Every table of the database holds at most one row per \<open>(symbol, date)\<close> in
  every state reached from a database with that property (the empty one, for instance)
  by any sequence of \<open>insert_data\<close> and \<open>bulk_insert_common\<close> calls, whatever the database
  makes fail: each of the two operations preserves the invariant.
\<close>

theorem unique_symbol_date_invariant:
  assumes "store_ok s"
  shows "store_ok (snd (insert_data e s symbol data)) \<and>
         store_ok (snd (bulk_insert_common e s df)) \<and>
         store_ok (run_ops e s ops)"
  using assms store_ok_insert_data store_ok_bulk_insert_common store_ok_run_ops by blast

theorem unique_symbol_date_invariant_witness:
  "store_ok initial_state \<and>
   store_ok (run_ops reliable initial_state
     [BulkInsertCommon [sample_row], InsertData ''ABC'' [sample_row],
      InsertData ''ABC'' [restated_row]]) \<and>
   store_ok (snd (insert_data reliable initial_state ''ABC'' [sample_row])) \<and>
   db (snd (insert_data reliable initial_state ''ABC'' [sample_row])) ''stock_abc'' =
     Some [sample_record]"
proof -
  have "db (snd (insert_data reliable initial_state ''ABC'' [sample_row])) ''stock_abc'' =
     Some [sample_record]"
    by (simp add: insert_data_def create_table_def check_table_exists_def has_table_def
        create_indexes_def execute_insert_def Let_def stock_table_ABC record_of_sample_row
        reliable_def initial_state_def send_def logging_def conflicts_def)
  with unique_symbol_date_invariant[OF store_ok_initial_state, of reliable] store_ok_initial_state
  show ?thesis by blast
qed

section \<open>The write operations\<close>

lemma trace_check_table_exists:
  "\<exists>evs. trace (snd (check_table_exists e s n)) = trace s @ evs \<and>
         (\<forall>ev \<in> set evs. \<not> is_insert ev \<and> \<not> is_request ev)"
  by (simp add: check_table_exists_def has_table_def Let_def split: option.splits bool.splits)

lemma trace_create_table:
  "\<exists>evs. trace (snd (create_table e s n)) = trace s @ evs \<and>
         (\<forall>ev \<in> set evs. \<not> is_insert ev \<and> \<not> is_request ev)"
  by (simp add: create_table_def check_table_exists_def has_table_def create_indexes_def
        Let_def split: option.splits bool.splits)






lemma create_table_raises_iff:
  "fst (create_table e s n) = Raise x \<longleftrightarrow>
   x = DatabaseError \<and> n \<notin> existing_tables_cache s \<and> inspector_cache s n = None \<and>
   db_raises e (HasTable n)"
  by (auto simp: create_table_def check_table_exists_def has_table_def Let_def
        split: option.splits if_splits bool.splits)


lemma create_table_raises:
  "fst (create_table e s n) = Raise x \<Longrightarrow>
   db_raises e (HasTable n) \<and> n \<notin> existing_tables_cache s \<and> inspector_cache s n = None"
  by (simp add: create_table_raises_iff)


lemma check_table_exists_keeps:
  "db (snd (check_table_exists e s n)) = db s \<and>
   metadata (snd (check_table_exists e s n)) = metadata s \<and>
   logfile (snd (check_table_exists e s n)) = logfile s"
  by (simp add: check_table_exists_def has_table_def Let_def split: option.splits bool.splits)




lemma bulk_insert_common_no_selection:
  assumes "\<forall>r \<in> set df. \<not> any_pattern r"
  shows "bulk_insert_common e s df =
         (case create_table e s ''common_stock_data'' of
            (Raise x, s1) \<Rightarrow> (Raise x, s1)
          | (Return created, s1) \<Rightarrow> (Return (), s1))"
proof -
  have "filter any_pattern df = []" using assms by (simp add: filter_empty_conv)
  then show ?thesis
    by (simp add: bulk_insert_common_def Let_def split: prod.splits outcome.splits)
qed


lemma fst_bulk_insert_common_no_selection:
  assumes "\<forall>r \<in> set df. \<not> any_pattern r"
  shows "fst (bulk_insert_common e s df) = Return () \<or>
         (\<exists>x. fst (bulk_insert_common e s df) = Raise x \<and>
              fst (create_table e s ''common_stock_data'') = Raise x)"
  unfolding bulk_insert_common_no_selection[OF assms]
  by (simp split: prod.splits outcome.splits)


lemmas run_store_defs =
  insert_data_def bulk_insert_common_def create_table_def check_table_exists_def
  has_table_def create_indexes_def execute_insert_def autoload_table_def build_records_def
  Let_def send_def logging_def conflicts_def reliable_def no_ddl_def offline_def
  initial_state_def


lemma sample_row_pattern: "any_pattern sample_row"
  by (simp add: any_pattern_def sample_row_def)




lemma execute_insert_single:
  assumes "execute_insert e s n [rec] = (b, s')"
  shows "(db s' n = db s n \<or> (\<exists>t. db s n = Some t \<and> db s' n = Some (t @ [rec]))) \<and>
         (b \<longrightarrow> (\<exists>t'. db s' n = Some t' \<and> conflicts t' rec))"
  using assms
  by (auto simp: execute_insert_def Let_def conflicts_def split: option.splits if_splits)

lemma insert_data_steps:
  assumes "create_table e s (stock_table symbol) = (c, s1)"
    and "record_of symbol r = Some q"
    and "execute_insert e s1 (stock_table symbol) [q] = (b, s2)"
  shows "insert_data e s symbol (r # rest) =
         (case c of
            Raise x \<Rightarrow> (Raise x, s1)
          | Return created \<Rightarrow>
              if b then (Return True, s2) else (Return False, logging (ErrorInsert symbol) s2))"
  using assms by (simp add: insert_data_def Let_def split: outcome.splits)

lemma insert_data_unconverted:
  assumes "create_table e s (stock_table symbol) = (c, s1)"
    and "record_of symbol r = None"
  shows "insert_data e s symbol (r # rest) =
         (case c of
            Raise x \<Rightarrow> (Raise x, s1)
          | Return created \<Rightarrow> (Return False, logging (ErrorInsert symbol) s1))"
  using assms by (simp add: insert_data_def Let_def split: outcome.splits)

text \<open>
  Claim C7. \<open>insert_data\<close> reads the first row of the group it is given and nothing
  else: called with a group of several rows it returns the result and the state it
  returns for the first row alone. The per-symbol table afterwards is the table before
  (empty when it was just created), with at most the record of the first row appended;
  when the call reports success, a row with the symbol and the first row's date is there.
\<close>

theorem insert_data_first_row_only:
  "insert_data e s symbol (r # rest) = insert_data e s symbol [r] \<and>
   (\<forall>t'. db (snd (insert_data e s symbol (r # rest))) (stock_table symbol) = Some t' \<longrightarrow>
      (\<exists>t. (db s (stock_table symbol) = Some t \<or>
            db s (stock_table symbol) = None \<and> t = []) \<and>
           (t' = t \<or> (\<exists>q. record_of symbol r = Some q \<and> t' = t @ [q])))) \<and>
   (fst (insert_data e s symbol (r # rest)) = Return True \<longrightarrow>
      (\<exists>t' q. record_of symbol r = Some q \<and>
         db (snd (insert_data e s symbol (r # rest))) (stock_table symbol) = Some t' \<and>
         conflicts t' q))"
proof -
  define n where "n = stock_table symbol"
  obtain c s1 where c: "create_table e s n = (c, s1)"
    by (cases "create_table e s n")
  have l: "db s1 n = db s n \<or> (db s n = None \<and> db s1 n = Some [])"
    using create_table_lookup[of e s n n] c by simp
  show ?thesis
  proof (cases "record_of symbol r")
    case None
    have steps: "\<And>rest. insert_data e s symbol (r # rest) =
         (case c of
            Raise x \<Rightarrow> (Raise x, s1)
          | Return created \<Rightarrow> (Return False, logging (ErrorInsert symbol) s1))"
      using insert_data_unconverted c None unfolding n_def by blast
    have eq: "insert_data e s symbol (r # rest) = insert_data e s symbol [r]"
      by (simp add: steps)
    have d: "db (snd (insert_data e s symbol (r # rest))) n = db s1 n"
      unfolding steps by (simp split: outcome.splits)
    have ok: "fst (insert_data e s symbol (r # rest)) \<noteq> Return True"
      unfolding steps by (simp split: outcome.splits)
    show ?thesis using eq d ok l unfolding n_def[symmetric] by auto
  next
    case (Some q)
    obtain b s2 where x: "execute_insert e s1 n [q] = (b, s2)"
      by (cases "execute_insert e s1 n [q]")
    note i = execute_insert_single[OF x]
    have steps: "\<And>rest. insert_data e s symbol (r # rest) =
         (case c of
            Raise x \<Rightarrow> (Raise x, s1)
          | Return created \<Rightarrow>
              if b then (Return True, s2) else (Return False, logging (ErrorInsert symbol) s2))"
      using insert_data_steps c Some x unfolding n_def by blast
    have eq: "insert_data e s symbol (r # rest) = insert_data e s symbol [r]"
      by (simp add: steps)
    have tab: "\<forall>t'. db (snd (insert_data e s symbol (r # rest))) n = Some t' \<longrightarrow>
        (\<exists>t. (db s n = Some t \<or> db s n = None \<and> t = []) \<and> (t' = t \<or> t' = t @ [q]))"
    proof (intro allI impI)
      fix t'
      assume a: "db (snd (insert_data e s symbol (r # rest))) n = Some t'"
      have "db (snd (insert_data e s symbol (r # rest))) n = db s1 n \<or>
            db (snd (insert_data e s symbol (r # rest))) n = db s2 n"
        unfolding steps by (simp split: outcome.splits)
      then have "db s1 n = Some t' \<or> (\<exists>t. db s1 n = Some t \<and> t' = t @ [q])"
        using a i by auto
      with l show "\<exists>t. (db s n = Some t \<or> db s n = None \<and> t = []) \<and>
             (t' = t \<or> t' = t @ [q])"
        by (metis option.inject)
    qed
    have ok: "fst (insert_data e s symbol (r # rest)) = Return True \<longrightarrow>
        (\<exists>t'. db (snd (insert_data e s symbol (r # rest))) n = Some t' \<and> conflicts t' q)"
      unfolding steps using i by (simp split: outcome.splits if_splits)
    show ?thesis using eq tab ok Some unfolding n_def[symmetric] by simp
  qed
qed

theorem insert_data_first_row_only_witness:
  "insert_data reliable initial_state ''ABC'' [sample_row, restated_row] =
     insert_data reliable initial_state ''ABC'' [sample_row] \<and>
   fst (insert_data reliable initial_state ''ABC'' [sample_row, restated_row]) = Return True \<and>
   record_of ''ABC'' sample_row = Some sample_record \<and>
   db (snd (insert_data reliable initial_state ''ABC'' [sample_row, restated_row])) ''stock_abc'' =
     Some [sample_record] \<and>
   logfile (snd (insert_data reliable initial_state ''ABC'' [sample_row, restated_row])) = []"
proof -
  have e: "insert_data reliable initial_state ''ABC'' [sample_row, restated_row] =
           insert_data reliable initial_state ''ABC'' [sample_row]"
    using insert_data_first_row_only[of reliable initial_state "''ABC''" sample_row "[restated_row]"]
    by blast
  show ?thesis unfolding e
    by (simp add: run_store_defs stock_table_ABC record_of_sample_row)
qed

lemma build_records_sample: "build_records [sample_row] = Some [sample_record]"
  using record_of_sample_row by (simp add: build_records_def sample_row_def)

text \<open>
  Claim C5, evaluated on a database that refuses to create tables: \<open>create_table\<close>
  reports failure, and both \<open>insert_data\<close> and \<open>bulk_insert_common\<close> still send their
  INSERT for that table in the same call (it fails, and a second error is logged).
\<close>

theorem insert_sent_after_failed_create_table:
  "fst (create_table no_ddl initial_state ''stock_abc'') = Return False \<and>
   record_of ''ABC'' sample_row = Some sample_record \<and>
   trace (snd (insert_data no_ddl initial_state ''ABC'' [sample_row])) =
     [HasTable ''stock_abc'', CreateAll [''stock_abc''],
      InsertInto ''stock_abc'' [sample_record]] \<and>
   logfile (snd (insert_data no_ddl initial_state ''ABC'' [sample_row])) =
     [ErrorCreateTable ''stock_abc'', ErrorInsert ''ABC''] \<and>
   fst (create_table no_ddl initial_state ''common_stock_data'') = Return False \<and>
   trace (snd (bulk_insert_common no_ddl initial_state [sample_row])) =
     [HasTable ''common_stock_data'', CreateAll [''common_stock_data''],
      InsertInto ''common_stock_data'' [sample_record]] \<and>
   logfile (snd (bulk_insert_common no_ddl initial_state [sample_row])) =
     [ErrorCreateTable ''common_stock_data'', ErrorBulkInsert ''common_stock_data'']"
  by (simp add: insert_data_def bulk_insert_common_def create_table_def
        check_table_exists_def has_table_def create_indexes_def execute_insert_def
        autoload_table_def Let_def send_def logging_def no_ddl_def reliable_def
        initial_state_def stock_table_ABC sample_row_pattern record_of_sample_row
        build_records_sample)

section \<open>The daily pipeline\<close>

lemma requests_create_table:
  "create_table e s n = (r, s') \<Longrightarrow>
   filter is_request (trace s') = filter is_request (trace s)"
  using trace_create_table[of e s n] by (auto simp: filter_empty_conv)

lemma requests_execute_insert:
  "execute_insert e s n rs = (b, s') \<Longrightarrow>
   filter is_request (trace s') = filter is_request (trace s)"
  by (auto simp: execute_insert_def Let_def split: option.splits if_splits)

lemma requests_autoload_table:
  "autoload_table e s n = (b, s') \<Longrightarrow>
   filter is_request (trace s') = filter is_request (trace s)"
  by (auto simp: autoload_table_def Let_def split: if_splits)

lemma requests_insert_data:
  "insert_data e s symbol data = (r, s') \<Longrightarrow>
   filter is_request (trace s') = filter is_request (trace s)"
  unfolding insert_data_def Let_def
  by (auto split: prod.splits outcome.splits list.splits bool.splits option.splits
           dest!: requests_create_table requests_execute_insert)

lemma requests_bulk_insert_common:
  "bulk_insert_common e s df = (r, s') \<Longrightarrow>
   filter is_request (trace s') = filter is_request (trace s)"
  unfolding bulk_insert_common_def Let_def
  by (auto split: prod.splits outcome.splits bool.splits if_splits option.splits
           dest!: requests_create_table requests_execute_insert requests_autoload_table)

lemma requests_insert_groups:
  "insert_groups e s gs = (r, s') \<Longrightarrow>
   filter is_request (trace s') = filter is_request (trace s)"
proof (induction gs arbitrary: s)
  case Nil
  then show ?case by simp
next
  case (Cons g gs)
  obtain symbol grp where g: "g = (symbol, grp)" by (cases g)
  obtain r1 s1 where i: "insert_data e s symbol grp = (r1, s1)"
    by (cases "insert_data e s symbol grp")
  note a = requests_insert_data[OF i]
  show ?case
  proof (cases r1)
    case (Return x)
    with Cons.prems g i have "insert_groups e s1 gs = (r, s')" by simp
    from Cons.IH[OF this] a show ?thesis by simp
  next
    case (Raise x)
    with Cons.prems g i a show ?thesis by simp
  qed
qed

lemma requests_write_day:
  "write_day e s df = (r, s') \<Longrightarrow>
   filter is_request (trace s') = filter is_request (trace s)"
  unfolding write_day_def
  by (auto split: prod.splits outcome.splits
           dest!: requests_bulk_insert_common requests_insert_groups)

lemma requests_try_body:
  "try_body e s csv = (r, s') \<Longrightarrow>
   filter is_request (trace s') = filter is_request (trace s)"
  unfolding try_body_def
  by (auto split: option.splits if_splits dest!: requests_write_day)

lemma download_csv_trace:
  "download_csv e s d = (r, s') \<Longrightarrow> s' = send (HttpGet d) s"
  by (auto simp: download_csv_def Let_def split: http_result.splits if_splits)

lemma process_single_date_returns: "fst (process_single_date e s d) = Return ()"
  by (simp add: process_single_date_def split: prod.splits option.splits outcome.splits)

lemma weekend_no_op: "is_weekend d \<Longrightarrow> process_single_date e s d = (Return (), s)"
  by (simp add: process_single_date_def)

lemma requests_process_single_date:
  "filter is_request (trace (snd (process_single_date e s d))) =
     filter is_request (trace s) @ (if is_weekend d then [] else [HttpGet d])"
proof (cases "is_weekend d")
  case True
  then show ?thesis by (simp add: weekend_no_op)
next
  case False
  obtain r s1 where dl: "download_csv e s d = (r, s1)" by (cases "download_csv e s d")
  have s1: "s1 = send (HttpGet d) s" by (rule download_csv_trace[OF dl])
  show ?thesis
  proof (cases r)
    case None
    with False dl s1 show ?thesis by (simp add: process_single_date_def)
  next
    case (Some csv)
    obtain r2 s2 where tb: "try_body e s1 csv = (r2, s2)" by (cases "try_body e s1 csv")
    from requests_try_body[OF tb] s1
    have "filter is_request (trace s2) = filter is_request (trace s) @ [HttpGet d]" by simp
    with False dl Some tb show ?thesis
      by (simp add: process_single_date_def split: outcome.splits)
  qed
qed

lemma process_date_range_fold:
  "process_date_range e s a b =
     (Return (), foldl (\<lambda>s d. snd (process_single_date e s d)) s [a..b])"
proof (induction e s a b rule: process_date_range.induct)
  case (1 e s current end_date)
  show ?case
  proof (cases "current \<le> end_date")
    case True
    obtain s1 where p: "process_single_date e s current = (Return (), s1)"
      using process_single_date_returns[of e s current]
      by (cases "process_single_date e s current") auto
    have u: "[current..end_date] = current # [current + 1..end_date]"
      using True by (simp add: upto_rec1)
    show ?thesis
      using True p "1.IH"[OF True p[symmetric] refl] u
      by (subst process_date_range.simps) simp
  next
    case False
    then show ?thesis by (subst process_date_range.simps) simp
  qed
qed

lemma fold_skips_weekends:
  "foldl (\<lambda>s d. snd (process_single_date e s d)) s ds =
   foldl (\<lambda>s d. snd (process_single_date e s d)) s (filter (\<lambda>d. \<not> is_weekend d) ds)"
  by (induction ds arbitrary: s) (simp_all add: weekend_no_op)

lemma requests_fold:
  "filter is_request (trace (foldl (\<lambda>s d. snd (process_single_date e s d)) s ds)) =
     filter is_request (trace s) @ map HttpGet (filter (\<lambda>d. \<not> is_weekend d) ds)"
  by (induction ds arbitrary: s) (simp_all add: requests_process_single_date)



lemma weekday_samples:
  "weekday 739252 = 2" "weekday 739254 = 4" "weekday 739255 = 5" "weekday 739256 = 6"
  by (simp_all add: weekday_def)


lemmas run_day_defs =
  process_single_date_def download_csv_def try_body_def write_day_def is_weekend_def
  garbled_def

subsection \<open>Which failures are caught where\<close>

lemma db_autoload_table [simp]: "db (snd (autoload_table e s n)) = db s"
  and logfile_autoload_table [simp]: "logfile (snd (autoload_table e s n)) = logfile s"
  by (simp_all add: autoload_table_def Let_def)

lemma logfile_execute_insert [simp]: "logfile (snd (execute_insert e s n rs)) = logfile s"
  and metadata_execute_insert [simp]: "metadata (snd (execute_insert e s n rs)) = metadata s"
  by (simp_all add: execute_insert_def Let_def split: option.splits)





lemma build_records_Nil [simp]: "build_records [] = Some []"
  by (simp add: build_records_def)





























text \<open>
  Claim C9. On a Saturday or a Sunday \<open>process_single_date\<close> returns at once and leaves
  the state as it was: no request, no database call, no log entry. A date range is
  processed as if its weekend days were not in it, and no request for a weekend day is
  ever sent.
\<close>

theorem weekend_dates_skipped:
  assumes "weekday d = 5 \<or> weekday d = 6"
  shows "process_single_date e s d = (Return (), s) \<and>
         snd (process_date_range e s a b) =
           foldl (\<lambda>s d. snd (process_single_date e s d)) s
             (filter (\<lambda>d. \<not> is_weekend d) [a..b]) \<and>
         (HttpGet d \<in> set (trace (snd (process_date_range e s a b))) \<longrightarrow>
            HttpGet d \<in> set (trace s))"
proof -
  have w: "is_weekend d" using assms by (auto simp: is_weekend_def)
  have r: "snd (process_date_range e s a b) =
           foldl (\<lambda>s d. snd (process_single_date e s d)) s
             (filter (\<lambda>d. \<not> is_weekend d) [a..b])"
    using fold_skips_weekends[of e s "[a..b]"] by (simp add: process_date_range_fold)
  have q: "filter is_request (trace (snd (process_date_range e s a b))) =
           filter is_request (trace s) @ map HttpGet (filter (\<lambda>d. \<not> is_weekend d) [a..b])"
    by (simp add: process_date_range_fold requests_fold)
  have "HttpGet d \<in> set (trace (snd (process_date_range e s a b))) \<longrightarrow>
        HttpGet d \<in> set (trace s)"
  proof
    assume "HttpGet d \<in> set (trace (snd (process_date_range e s a b)))"
    then have "HttpGet d \<in> set (filter is_request (trace (snd (process_date_range e s a b))))"
      by simp
    then have "HttpGet d \<in> set (filter is_request (trace s)) \<or>
               HttpGet d \<in> HttpGet ` set (filter (\<lambda>d. \<not> is_weekend d) [a..b])"
      unfolding q by auto
    with w show "HttpGet d \<in> set (trace s)" by auto
  qed
  with w r show ?thesis by (simp add: weekend_no_op)
qed

theorem weekend_dates_skipped_witness:
  "(weekday 739255 = 5 \<or> weekday 739255 = 6) \<and>
   process_single_date reliable initial_state 739255 = (Return (), initial_state) \<and>
   HttpGet 739255 \<notin> set (trace (snd (process_date_range reliable initial_state 739254 739257)))"
proof -
  have h: "weekday 739255 = 5 \<or> weekday 739255 = 6"
    by (simp add: weekday_def)
  have t: "HttpGet 739255 \<notin> set (trace initial_state)"
    by (simp add: initial_state_def)
  from weekend_dates_skipped[OF h, of reliable initial_state 739254 739257] h t
  show ?thesis by blast
qed

section \<open>Idempotence of the writes\<close>




















text \<open>Runs against a database that does not fail.\<close>

lemma consistent_send [simp]: "consistent (send ev s) = consistent s"
  and consistent_logging [simp]: "consistent (logging m s) = consistent s"
  by (simp_all add: consistent_def)




























end
